theory Spec2Isabelle
  imports
    Main
    "HOL-Library.Sublist"
    "HOL-Library.Char_ord"
    "HOL-Library.List_Lexorder"
begin

section \<open>Python values and exceptions\<close>

text \<open>
  The program is \<^verbatim>\<open>app.py\<close>: \<^verbatim>\<open>to_jsonable\<close> and \<^verbatim>\<open>analyze_apk\<close>.
  A Python \<^verbatim>\<open>str\<close> is a \<^typ>\<open>string\<close>: a list of characters whose codes are read as
  Unicode code points below 256, ordered by code point (\<^verbatim>\<open>Char_ord\<close>), lists of them
  lexicographically (\<^verbatim>\<open>List_Lexorder\<close>) as Python compares \<^verbatim>\<open>str\<close>. Text with code points
  from 256 on is not covered.

  A call that may raise has a result of type \<open>exn + 'a\<close>; \<open>Inl\<close> is the raise. Only subclasses of
  \<^verbatim>\<open>Exception\<close> are modelled, the ones an \<^verbatim>\<open>except Exception\<close> clause catches; the
  string is \<^verbatim>\<open>str(e)\<close>.
\<close>

datatype exn = Exception string

fun exn_str :: "exn \<Rightarrow> string" where
  "exn_str (Exception m) = m"

text \<open>A float is never inspected by the program; it is only passed through.\<close>

datatype pyfloat = Finite int int | PosInf | NegInf | NaN

text \<open>
  A key of a mapping is a \<^verbatim>\<open>str\<close>, or some other hashable object, which the program only
  ever converts with \<^verbatim>\<open>str(k)\<close>: the object is represented by the outcome of that call.
\<close>

datatype pykey = KStr string | KObj "exn + string"

text \<open>
  The shapes \<^verbatim>\<open>to_jsonable\<close> tells apart with \<^verbatim>\<open>isinstance\<close>. An object the program only
  calls methods on is represented by the outcomes of those calls:
  \<^item> \<open>PPath s\<close>: a \<^verbatim>\<open>Path\<close> with \<^verbatim>\<open>str(o) = s\<close>;
  \<^item> \<open>PBytes d s\<close>: a \<^verbatim>\<open>bytes\<close> object, \<open>d\<close> the outcome of
    \<^verbatim>\<open>o.decode("utf-8", errors="ignore")\<close> and \<open>s\<close> the outcome of \<^verbatim>\<open>str(o)\<close>;
  \<^item> \<open>PDict kvs\<close>: a \<^verbatim>\<open>Mapping\<close>, \<open>kvs\<close> its \<^verbatim>\<open>items()\<close> in iteration order;
  \<^item> \<open>PList\<close>, \<open>PTuple\<close>, \<open>PSet\<close>: the elements in iteration order;
  \<^item> \<open>PObj s r\<close>: any other object, \<open>s\<close> the outcome of \<^verbatim>\<open>str(o)\<close> and \<open>r\<close> of
    \<^verbatim>\<open>repr(o)\<close>.
\<close>

datatype pyval =
    PNone
  | PBool bool
  | PInt int
  | PFloat pyfloat
  | PStr string
  | PPath string
  | PBytes "exn + string" "exn + string"
  | PDict "(pykey \<times> pyval) list"
  | PList "pyval list"
  | PTuple "pyval list"
  | PSet "pyval list"
  | PObj "exn + string" "exn + string"

section \<open>String operations\<close>

text \<open>\<^verbatim>\<open>s.startswith(p)\<close> and \<^verbatim>\<open>sub in s\<close> on \<^verbatim>\<open>str\<close>.\<close>

definition startswith :: "string \<Rightarrow> string \<Rightarrow> bool" where
  "startswith s p = prefix p s"

definition contains :: "string \<Rightarrow> string \<Rightarrow> bool" where
  "contains s sub = sublist sub s"

text \<open>\<^verbatim>\<open>sorted(set(xs))\<close> on strings: the distinct elements in ascending order.\<close>

definition sorted_set :: "string list \<Rightarrow> string list" where
  "sorted_set xs = sort (remdups xs)"

section \<open>The URL pattern\<close>

text \<open>
  \<^verbatim>\<open>re.compile(r"https?://[\w\-._~:/?#\[\]@!$&'()*+,;=%]+", re.IGNORECASE)\<close>.
  \<open>is_word\<close> is \<^verbatim>\<open>\w\<close> of a \<^verbatim>\<open>str\<close> pattern on code points below 256: the ASCII
  letters, the digits, the underscore, and the letters and numeric characters of Latin-1.
\<close>

definition is_word :: "char \<Rightarrow> bool" where
  "is_word c =
     (let n = (of_char c :: nat) in
        (48 \<le> n \<and> n \<le> 57) \<or> (65 \<le> n \<and> n \<le> 90) \<or> n = 95 \<or> (97 \<le> n \<and> n \<le> 122)
        \<or> n = 170 \<or> n = 178 \<or> n = 179 \<or> n = 181 \<or> n = 185 \<or> n = 186
        \<or> (188 \<le> n \<and> n \<le> 190) \<or> (192 \<le> n \<and> n \<le> 214)
        \<or> (216 \<le> n \<and> n \<le> 246) \<or> 248 \<le> n)"

definition url_punct :: string where
  "url_punct = ''-._~:/?#[]@!$&'' @ [char_of (39 :: nat)] @ ''()*+,;=%''"

definition url_char :: "char \<Rightarrow> bool" where
  "url_char c = (is_word c \<or> c \<in> set url_punct)"

text \<open>
  Ignoring case, on the literal part of the pattern: below code point 256 only the ASCII
  capitals fold onto \<^verbatim>\<open>h\<close>, \<^verbatim>\<open>t\<close>, \<^verbatim>\<open>p\<close>, \<^verbatim>\<open>s\<close>.
\<close>

definition ascii_lower :: "char \<Rightarrow> char" where
  "ascii_lower c =
     (let n = (of_char c :: nat) in if 65 \<le> n \<and> n \<le> 90 then char_of (n + 32) else c)"

text \<open>\<open>strip_ci lit s\<close>: the rest of \<open>s\<close> after the lower-case literal \<open>lit\<close>, if \<open>s\<close> starts with it.\<close>

fun strip_ci :: "string \<Rightarrow> string \<Rightarrow> string option" where
  "strip_ci [] s = Some s"
| "strip_ci (l # ls) [] = None"
| "strip_ci (l # ls) (c # cs) = (if ascii_lower c = l then strip_ci ls cs else None)"

text \<open>
  One match attempt at the start of \<open>s\<close>: the matched text and what follows it. The
  optional \<^verbatim>\<open>s\<close> is taken when present (without it the next character would have to be
  \<^verbatim>\<open>:\<close>), and the character class is greedy and last, so no backtracking changes the
  outcome.
\<close>

definition url_match :: "string \<Rightarrow> (string \<times> string) option" where
  "url_match s =
     (case strip_ci ''http'' s of
        None \<Rightarrow> None
      | Some r \<Rightarrow>
          (let r1 = (case strip_ci ''s'' r of Some r' \<Rightarrow> r' | None \<Rightarrow> r) in
           case strip_ci ''://'' r1 of
             None \<Rightarrow> None
           | Some body \<Rightarrow>
               (let rest = dropWhile url_char body in
                if takeWhile url_char body = [] then None
                else Some (take (length s - length rest) s, rest))))"

lemma strip_ci_length: "strip_ci lit s = Some r \<Longrightarrow> length r + length lit = length s"
  by (induction lit s rule: strip_ci.induct) (auto split: if_splits)

lemma url_match_shorter:
  assumes "url_match s = Some (m, rest)"
  shows "length rest < length s"
proof -
  from assms obtain r r1 body where
    r: "strip_ci ''http'' s = Some r" and
    r1: "r1 = (case strip_ci ''s'' r of Some r' \<Rightarrow> r' | None \<Rightarrow> r)" and
    body: "strip_ci ''://'' r1 = Some body" and
    rest: "rest = dropWhile url_char body"
    by (auto simp: url_match_def Let_def split: option.splits if_splits)
  have "length r1 \<le> length r"
    using r1 strip_ci_length [of "''s''" r] by (auto split: option.splits)
  moreover have "length r < length s"
    using strip_ci_length [OF r] by simp
  moreover have "length body \<le> length r1"
    using strip_ci_length [OF body] by simp
  moreover have "length rest \<le> length body"
    unfolding rest by (rule length_dropWhile_le)
  ultimately show ?thesis by linarith
qed

text \<open>
  \<^verbatim>\<open>url_regex.findall(s)\<close>: the non-overlapping matches from left to right; after a match
  the scan resumes where the match ended, otherwise one character further.
\<close>

function url_findall :: "string \<Rightarrow> string list" where
  "url_findall [] = []"
| "url_findall (c # cs) =
     (case url_match (c # cs) of
        None \<Rightarrow> url_findall cs
      | Some (m, rest) \<Rightarrow> m # url_findall rest)"
  by pat_completeness auto
termination
  by (relation "measure length") (auto dest: url_match_shorter)

section \<open>\<^verbatim>\<open>to_jsonable\<close>\<close>

text \<open>
  A comprehension evaluates its elements in order and stops at the first one that raises.
\<close>

fun list_comp :: "(exn + 'a) list \<Rightarrow> exn + 'a list" where
  "list_comp [] = Inr []"
| "list_comp (Inl e # rs) = Inl e"
| "list_comp (Inr v # rs) = (case list_comp rs of Inl e \<Rightarrow> Inl e | Inr vs \<Rightarrow> Inr (v # vs))"

text \<open>
  \<^verbatim>\<open>d[k] = v\<close> on a \<^verbatim>\<open>dict\<close> kept as its items in insertion order: an existing key keeps
  its place and takes the new value, a new key goes last.
\<close>

fun dict_set :: "pykey \<Rightarrow> pyval \<Rightarrow> (pykey \<times> pyval) list \<Rightarrow> (pykey \<times> pyval) list" where
  "dict_set k v [] = [(k, v)]"
| "dict_set k v ((k', v') # d) = (if k' = k then (k, v) # d else (k', v') # dict_set k v d)"

text \<open>
  The dict comprehension \<^verbatim>\<open>{str(k): to_jsonable(v) for k, v in o.items()}\<close>, given for
  each item the outcomes of \<^verbatim>\<open>str(k)\<close> and of \<^verbatim>\<open>to_jsonable(v)\<close>: the key is evaluated
  before the value, and the items are stored one after the other into the dict built so far.
\<close>

fun dict_comp ::
  "(pykey \<times> pyval) list \<Rightarrow> ((exn + string) \<times> (exn + pyval)) list \<Rightarrow> exn + (pykey \<times> pyval) list"
where
  "dict_comp d [] = Inr d"
| "dict_comp d ((Inl e, rv) # rs) = Inl e"
| "dict_comp d ((Inr s, Inl e) # rs) = Inl e"
| "dict_comp d ((Inr s, Inr v) # rs) = dict_comp (dict_set (KStr s) v d) rs"

fun key_str :: "pykey \<Rightarrow> exn + string" where
  "key_str (KStr s) = Inr s"
| "key_str (KObj r) = r"

fun to_jsonable :: "pyval \<Rightarrow> exn + pyval" where
  "to_jsonable PNone = Inr PNone"
| "to_jsonable (PBool b) = Inr (PBool b)"
| "to_jsonable (PInt i) = Inr (PInt i)"
| "to_jsonable (PFloat x) = Inr (PFloat x)"
| "to_jsonable (PStr s) = Inr (PStr s)"
| "to_jsonable (PPath s) = Inr (PStr s)"
| "to_jsonable (PBytes d s) =
     (case d of
        Inr t \<Rightarrow> Inr (PStr t)
      | Inl _ \<Rightarrow> (case s of Inr t \<Rightarrow> Inr (PStr t) | Inl e \<Rightarrow> Inl e))"
| "to_jsonable (PDict kvs) =
     (case dict_comp [] (map (\<lambda>(k, v). (key_str k, to_jsonable v)) kvs) of
        Inl e \<Rightarrow> Inl e
      | Inr d \<Rightarrow> Inr (PDict d))"
| "to_jsonable (PList xs) =
     (case list_comp (map to_jsonable xs) of Inl e \<Rightarrow> Inl e | Inr ys \<Rightarrow> Inr (PList ys))"
| "to_jsonable (PTuple xs) =
     (case list_comp (map to_jsonable xs) of Inl e \<Rightarrow> Inl e | Inr ys \<Rightarrow> Inr (PList ys))"
| "to_jsonable (PSet xs) =
     (case list_comp (map to_jsonable xs) of Inl e \<Rightarrow> Inl e | Inr ys \<Rightarrow> Inr (PList ys))"
| "to_jsonable (PObj s r) =
     (case s of
        Inr t \<Rightarrow> Inr (PStr t)
      | Inl _ \<Rightarrow> (case r of Inr t \<Rightarrow> Inr (PStr t) | Inl e \<Rightarrow> Inl e))"

text \<open>
  What the claim about \<^verbatim>\<open>to_jsonable\<close> calls its outputs: \<^verbatim>\<open>None\<close>, booleans, numbers,
  strings, lists of such values, and dicts with distinct string keys and such values.
\<close>

fun is_str_key :: "pykey \<Rightarrow> bool" where
  "is_str_key (KStr s) = True"
| "is_str_key (KObj r) = False"

fun jsonable :: "pyval \<Rightarrow> bool" where
  "jsonable PNone = True"
| "jsonable (PBool b) = True"
| "jsonable (PInt i) = True"
| "jsonable (PFloat x) = True"
| "jsonable (PStr s) = True"
| "jsonable (PDict kvs) =
     (list_all is_str_key (map fst kvs) \<and> distinct (map fst kvs)
      \<and> list_all jsonable (map snd kvs))"
| "jsonable (PList xs) = list_all jsonable xs"
| "jsonable v = False"

section \<open>The package parser\<close>

text \<open>
  \<^verbatim>\<open>APK\<close> is androguard's parser, an outside library. A parsed package is represented by
  the outcome of each method \<^verbatim>\<open>analyze_apk\<close> calls on it; a method called more than once
  has the same outcome each time.

  The object \<^verbatim>\<open>get_android_manifest_xml()\<close> returns is \<open>WithToxml r\<close> when it has a
  \<^verbatim>\<open>toxml\<close> attribute, \<open>r\<close> the outcome of \<^verbatim>\<open>toxml()\<close> (\<open>Inr None\<close> for a result
  that is \<^verbatim>\<open>None\<close>; \<open>Inl\<close> also for a result \<^verbatim>\<open>findall\<close> rejects), and \<open>NoToxml r\<close>
  otherwise, \<open>r\<close> the outcome of \<^verbatim>\<open>str()\<close> of the object.
\<close>

datatype manifest = WithToxml "exn + string option" | NoToxml "exn + string"

text \<open>
  A certificate: for each of the three attributes the outcome of
  \<^verbatim>\<open>getattr(c, name, None)\<close> followed by \<^verbatim>\<open>str()\<close> of a value that is not \<^verbatim>\<open>None\<close>
  (\<open>Inr None\<close>: the attribute is missing or \<^verbatim>\<open>None\<close>), and the outcome of \<^verbatim>\<open>str(c)\<close>.
\<close>

record cert =
  issuer :: "exn + string option"
  subject :: "exn + string option"
  serial_number :: "exn + string option"
  cert_str :: "exn + string"

text \<open>
  \<open>is_debuggable\<close> is the outcome of \<^verbatim>\<open>bool(a.is_debuggable())\<close>. Where the code writes
  \<^verbatim>\<open>or []\<close> after a call, the call's result is an optional list, \<open>None\<close> for \<^verbatim>\<open>None\<close>.
  \<open>get_certificates\<close> is \<open>Inl\<close> when the call or the iteration over its result raises.
  \<open>get_files\<close> is \<open>Inl\<close> when the call raises, and otherwise the entries the loop sees:
  all of them, or those before a raise of the iteration.
\<close>

record apk =
  get_package :: "exn + pyval"
  get_app_name :: "exn + pyval"
  get_androidversion_name :: "exn + pyval"
  get_androidversion_code :: "exn + pyval"
  is_debuggable :: "exn + bool"
  get_permissions :: "exn + string list option"
  get_receivers :: "exn + pyval list option"
  get_services :: "exn + pyval list option"
  get_activities :: "exn + pyval list option"
  get_android_manifest_xml :: "exn + manifest"
  get_files :: "exn + pyval list"
  get_certificates :: "exn + cert list option"

section \<open>\<^verbatim>\<open>analyze_apk\<close>\<close>

subsection \<open>Permissions (lines 98 to 122)\<close>

text \<open>\<^verbatim>\<open>x or []\<close> on a list or \<^verbatim>\<open>None\<close>.\<close>

fun or_empty :: "'a list option \<Rightarrow> 'a list" where
  "or_empty None = []"
| "or_empty (Some xs) = xs"

definition dangerous_perm_prefixes :: "string list" where
  "dangerous_perm_prefixes =
     [''android.permission.SEND_SMS'',
      ''android.permission.READ_SMS'',
      ''android.permission.RECEIVE_SMS'',
      ''android.permission.CALL_PHONE'',
      ''android.permission.RECORD_AUDIO'',
      ''android.permission.READ_CONTACTS'',
      ''android.permission.WRITE_CONTACTS'',
      ''android.permission.READ_CALL_LOG'',
      ''android.permission.WRITE_CALL_LOG'',
      ''android.permission.READ_EXTERNAL_STORAGE'',
      ''android.permission.WRITE_EXTERNAL_STORAGE'',
      ''android.permission.MANAGE_EXTERNAL_STORAGE'',
      ''android.permission.ACCESS_FINE_LOCATION'',
      ''android.permission.ACCESS_COARSE_LOCATION'',
      ''android.permission.SYSTEM_ALERT_WINDOW'',
      ''android.permission.REQUEST_INSTALL_PACKAGES'',
      ''android.permission.PACKAGE_USAGE_STATS'',
      ''android.permission.CAMERA'']"

text \<open>\<^verbatim>\<open>any(p.startswith(dp) for dp in dangerous_perm_prefixes)\<close>\<close>

definition is_dangerous :: "string \<Rightarrow> bool" where
  "is_dangerous p = list_ex (startswith p) dangerous_perm_prefixes"

subsection \<open>Components (lines 124 to 138)\<close>

text \<open>\<^verbatim>\<open>try: a.get_receivers() or [] except Exception: []\<close>, and the same for the other two.\<close>

fun component_list :: "exn + pyval list option \<Rightarrow> pyval" where
  "component_list (Inl e) = PList []"
| "component_list (Inr r) = PList (or_empty r)"

subsection \<open>URLs (lines 140 to 161)\<close>

text \<open>
  The matches the manifest adds to \<^verbatim>\<open>urls\<close>; nothing when anything in the \<^verbatim>\<open>try\<close> block
  raises. \<^verbatim>\<open>manifest_xml or ""\<close> turns \<^verbatim>\<open>None\<close> into the empty string.
\<close>

fun manifest_urls :: "exn + manifest \<Rightarrow> string list" where
  "manifest_urls (Inl e) = []"
| "manifest_urls (Inr (WithToxml (Inl e))) = []"
| "manifest_urls (Inr (WithToxml (Inr None))) = url_findall []"
| "manifest_urls (Inr (WithToxml (Inr (Some manifest_xml)))) = url_findall manifest_xml"
| "manifest_urls (Inr (NoToxml (Inl e))) = []"
| "manifest_urls (Inr (NoToxml (Inr manifest_xml))) = url_findall manifest_xml"

text \<open>
  The matches the file names add: \<^verbatim>\<open>isinstance(f, str)\<close> holds of \<open>PStr\<close> only. A raise
  is swallowed, and the matches of the names seen before it stay in \<^verbatim>\<open>urls\<close>.
\<close>

fun file_matches :: "pyval \<Rightarrow> string list" where
  "file_matches (PStr f) = url_findall f"
| "file_matches v = []"

fun file_urls :: "exn + pyval list \<Rightarrow> string list" where
  "file_urls (Inl e) = []"
| "file_urls (Inr fs) = concat (map file_matches fs)"

subsection \<open>Certificates (lines 163 to 181)\<close>

fun opt_str :: "string option \<Rightarrow> pyval" where
  "opt_str None = PNone"
| "opt_str (Some s) = PStr s"

text \<open>One round of the loop: the entry appended, or the raise of \<^verbatim>\<open>str(c)\<close> in the handler.\<close>

definition cert_entry :: "cert \<Rightarrow> exn + pyval" where
  "cert_entry c =
     (case (issuer c, subject c, serial_number c) of
        (Inr i, Inr s, Inr n) \<Rightarrow>
          Inr (PDict [(KStr ''issuer'', opt_str i),
                      (KStr ''subject'', opt_str s),
                      (KStr ''serial_number'', opt_str n)])
      | _ \<Rightarrow> (case cert_str c of Inr t \<Rightarrow> Inr (PStr t) | Inl e \<Rightarrow> Inl e))"

fun cert_info :: "exn + cert list option \<Rightarrow> pyval" where
  "cert_info (Inl e) = PList []"
| "cert_info (Inr certs) =
     (case list_comp (map cert_entry (or_empty certs)) of
        Inl e \<Rightarrow> PList []
      | Inr cert_list \<Rightarrow> PList cert_list)"

subsection \<open>Risk scoring (lines 183 to 217)\<close>

text \<open>
  The five rules, in order, on the pair of \<^verbatim>\<open>risk\<close> and \<^verbatim>\<open>reasons\<close>.
  \<^verbatim>\<open>findings.get("debuggable")\<close> is true only of \<^verbatim>\<open>True\<close>, not of \<^verbatim>\<open>False\<close> or
  \<^verbatim>\<open>None\<close>.
\<close>

definition risk_rules :: "bool option \<Rightarrow> string list \<Rightarrow> string list \<Rightarrow> int \<times> string list" where
  "risk_rules debuggable dangerous_perms urls =
     (let (risk, reasons) = (0, []);
          (risk, reasons) =
            (if debuggable = Some True
             then (risk + 1,
                   reasons @ [''App is debuggable (should be disabled in release builds)''])
             else (risk, reasons));
          (risk, reasons) =
            (if length dangerous_perms \<ge> 3
             then (risk + 2, reasons @ [''Multiple dangerous permissions declared''])
             else if length dangerous_perms > 0
             then (risk + 1, reasons @ [''Some dangerous permissions declared''])
             else (risk, reasons));
          (risk, reasons) =
            (if length urls > 10
             then (risk + 1,
                   reasons @ [''Lots of embedded URLs (possible trackers/endpoints)''])
             else (risk, reasons));
          (risk, reasons) =
            (if list_ex (\<lambda>p. contains p ''SYSTEM_ALERT_WINDOW'') dangerous_perms
             then (risk + 1, reasons @ [''Can draw over other apps (SYSTEM_ALERT_WINDOW)''])
             else (risk, reasons));
          (risk, reasons) =
            (if list_ex (\<lambda>p. contains p ''REQUEST_INSTALL_PACKAGES'') dangerous_perms
             then (risk + 1, reasons @ [''Can request to install packages (side-loading)''])
             else (risk, reasons))
      in (risk, reasons))"

text \<open>\<^verbatim>\<open>risk = max(0, min(10, risk))\<close>\<close>

definition clamp_risk :: "int \<Rightarrow> int" where
  "clamp_risk risk = max 0 (min 10 risk)"

definition risk_label :: "int \<Rightarrow> string" where
  "risk_label risk =
     (if risk \<le> 2 then ''Low'' else if risk \<le> 5 then ''Medium'' else ''High'')"

text \<open>The scorer as a whole: the clamped score, the label and the reasons.\<close>

definition risk_assessment ::
  "bool option \<Rightarrow> string list \<Rightarrow> string list \<Rightarrow> int \<times> string \<times> string list" where
  "risk_assessment debuggable dangerous_perms urls =
     (let (risk, reasons) = risk_rules debuggable dangerous_perms urls;
          risk = clamp_risk risk
      in (risk, risk_label risk, reasons))"

subsection \<open>Recommendation (lines 219 to 231)\<close>

definition recommendation :: "string \<Rightarrow> string \<times> string" where
  "recommendation label =
     (if label = ''High''
      then (''Install caution is advised (High risk).'',
            ''Dangerous permissions or behavior detected. Avoid installing from untrusted sources.'')
      else if label = ''Medium''
      then (''Recommended installation (Medium risk).'',
            ''Multiple risk factors detected. Verify the source and review permissions before installation.'')
      else (''Generally safe (Low risk).'',
            ''No significant risk factors detected. Verify the source.''))"

subsection \<open>The whole function\<close>

fun opt_bool :: "bool option \<Rightarrow> pyval" where
  "opt_bool None = PNone"
| "opt_bool (Some b) = PBool b"

text \<open>\<^verbatim>\<open>try: bool(a.is_debuggable()) except Exception: None\<close>\<close>

fun debuggable_flag :: "exn + bool \<Rightarrow> bool option" where
  "debuggable_flag (Inl e) = None"
| "debuggable_flag (Inr b) = Some b"

definition str_list :: "string list \<Rightarrow> pyval" where
  "str_list xs = PList (map PStr xs)"

text \<open>
  Lines 83 to 233, with the parsed package in hand. The four metadata calls and
  \<^verbatim>\<open>get_permissions()\<close> stand outside every \<^verbatim>\<open>try\<close>: a raise there leaves the function.
\<close>

definition analyze_parsed :: "apk \<Rightarrow> exn + (string \<rightharpoonup> pyval)" where
  "analyze_parsed a =
     (case get_package a of Inl e \<Rightarrow> Inl e | Inr package_name \<Rightarrow>
      case get_app_name a of Inl e \<Rightarrow> Inl e | Inr app_name \<Rightarrow>
      case get_androidversion_name a of Inl e \<Rightarrow> Inl e | Inr version_name \<Rightarrow>
      case get_androidversion_code a of Inl e \<Rightarrow> Inl e | Inr version_code \<Rightarrow>
      let debuggable = debuggable_flag (is_debuggable a) in
      case get_permissions a of Inl e \<Rightarrow> Inl e | Inr perms \<Rightarrow>
      let permissions = sorted_set (or_empty perms);
          dangerous_perms = filter is_dangerous permissions;
          urls = sorted_set (manifest_urls (get_android_manifest_xml a) @ file_urls (get_files a));
          (risk, label, reasons) = risk_assessment debuggable dangerous_perms urls;
          (recommendation, recommendation_reason) = recommendation label
      in Inr [''ok'' \<mapsto> PBool True,
              ''package_name'' \<mapsto> package_name,
              ''app_name'' \<mapsto> app_name,
              ''version_name'' \<mapsto> version_name,
              ''version_code'' \<mapsto> version_code,
              ''debuggable'' \<mapsto> opt_bool debuggable,
              ''permissions'' \<mapsto> str_list permissions,
              ''dangerous_permissions'' \<mapsto> str_list (sort dangerous_perms),
              ''receivers'' \<mapsto> component_list (get_receivers a),
              ''services'' \<mapsto> component_list (get_services a),
              ''activities'' \<mapsto> component_list (get_activities a),
              ''urls'' \<mapsto> str_list urls,
              ''certificates'' \<mapsto> cert_info (get_certificates a),
              ''risk_score'' \<mapsto> PInt risk,
              ''risk_label'' \<mapsto> PStr label,
              ''risk_reasons'' \<mapsto> str_list reasons,
              ''recommendation'' \<mapsto> PStr recommendation,
              ''recommendation_reason'' \<mapsto> PStr recommendation_reason])"

text \<open>
  \<^verbatim>\<open>analyze_apk(apk_path)\<close>. The module globals \<^verbatim>\<open>ANDRO_OK\<close> and \<^verbatim>\<open>APK\<close> are arguments;
  the returned \<^verbatim>\<open>dict\<close> is a map from its keys, and \<open>Inl\<close> is an exception that leaves
  the function.
\<close>

definition analyze_apk ::
  "bool \<Rightarrow> (string \<Rightarrow> exn + apk) \<Rightarrow> string \<Rightarrow> exn + (string \<rightharpoonup> pyval)" where
  "analyze_apk ANDRO_OK APK apk_path =
     (if \<not> ANDRO_OK
      then Inr [''ok'' \<mapsto> PBool False,
                ''error'' \<mapsto> PStr ''Androguard is not installed. Please install dependencies from requirements.txt'']
      else
        (case APK apk_path of
           Inl e \<Rightarrow> Inr [''ok'' \<mapsto> PBool False,
                         ''error'' \<mapsto> PStr (''Failed to parse APK: '' @ exn_str e)]
         | Inr a \<Rightarrow> analyze_parsed a))"

text \<open>The items of a dict as the claim describes it: distinct string keys, jsonable values.\<close>

definition json_dict :: "(pykey \<times> pyval) list \<Rightarrow> bool" where
  "json_dict d =
     (list_all is_str_key (map fst d) \<and> distinct (map fst d) \<and> list_all jsonable (map snd d))"

section \<open>Sample inputs\<close>

text \<open>A parsed package used to evaluate the functions on concrete data.\<close>

definition sample_apk :: apk where
  "sample_apk = \<lparr>
     get_package = Inr (PStr ''com.example.app''),
     get_app_name = Inr (PStr ''Example''),
     get_androidversion_name = Inr (PStr ''1.0''),
     get_androidversion_code = Inr (PStr ''1''),
     is_debuggable = Inr True,
     get_permissions = Inr (Some
       [''android.permission.SYSTEM_ALERT_WINDOW'',
        ''android.permission.CAMERA'',
        ''android.permission.INTERNET'',
        ''android.permission.CAMERA'',
        ''android.permission.READ_SMS_X'']),
     get_receivers = Inr None,
     get_services = Inl (Exception ''no services''),
     get_activities = Inr (Some [PStr ''.Main'']),
     get_android_manifest_xml =
       Inr (WithToxml (Inr (Some ''<a href=http://b.example/x> https://a.example''))),
     get_files = Inr [PStr ''assets/http://c.example/y'', PNone, PStr ''res/https://a.example''],
     get_certificates = Inr (Some
       [\<lparr>issuer = Inr (Some ''CN=a''), subject = Inr None,
         serial_number = Inr (Some ''12''), cert_str = Inr ''cert''\<rparr>,
        \<lparr>issuer = Inl (Exception ''bad issuer''), subject = Inr None,
         serial_number = Inr (Some ''12''), cert_str = Inr ''cert2''\<rparr>])
   \<rparr>"

text \<open>
  A debuggable package with four dangerous permissions, two of them the overlay and the
  side-loading permission, and twenty URLs in its file names.
\<close>

definition risky_apk :: apk where
  "risky_apk = sample_apk \<lparr>
     get_permissions := Inr (Some
       [''android.permission.SYSTEM_ALERT_WINDOW'',
        ''android.permission.REQUEST_INSTALL_PACKAGES'',
        ''android.permission.CAMERA'',
        ''android.permission.SEND_SMS'']),
     get_android_manifest_xml := Inl (Exception ''no manifest''),
     get_files := Inr (map (\<lambda>s. PStr (''assets/https://cdn.example/'' @ s))
       [''a'', ''b'', ''c'', ''d'', ''e'', ''f'', ''g'', ''h'', ''i'', ''j'',
        ''k'', ''l'', ''m'', ''n'', ''o'', ''p'', ''q'', ''r'', ''s'', ''t''])
   \<rparr>"

text \<open>The sample package on a parser that has no \<^verbatim>\<open>is_debuggable\<close> method.\<close>

definition undebuggable_apk :: apk where
  "undebuggable_apk = sample_apk \<lparr>is_debuggable := Inl (Exception ''no attribute is_debuggable'')\<rparr>"

text \<open>\<^verbatim>\<open>to_jsonable(to_jsonable(o))\<close>: a raise of the inner call leaves the outer one.\<close>

definition to_jsonable_twice :: "pyval \<Rightarrow> exn + pyval" where
  "to_jsonable_twice v = (case to_jsonable v of Inl e \<Rightarrow> Inl e | Inr w \<Rightarrow> to_jsonable w)"

definition sample_value :: pyval where
  "sample_value =
     PDict [(KObj (Inr ''1''), PTuple [PInt 1, PPath ''/tmp/x'']),
            (KStr ''1'', PSet [PBytes (Inl (Exception ''decode'')) (Inr ''b'')]),
            (KStr ''z'', PObj (Inl (Exception ''str'')) (Inr ''<obj>''))]"


section \<open>Auxiliary facts\<close>

lemma analyze_apk_success:
  assumes "analyze_apk ANDRO_OK APK apk_path = Inr f" and "f ''ok'' = Some (PBool True)"
  obtains a where "ANDRO_OK" and "APK apk_path = Inr a" and "analyze_parsed a = Inr f"
  using assms unfolding analyze_apk_def
  by (auto split: if_splits sum.splits)

lemma analyze_parsed_fields:
  assumes "analyze_parsed a = Inr f"
  obtains perms permissions dangerous_perms urls risk label reasons where
    "get_permissions a = Inr perms"
    "permissions = sorted_set (or_empty perms)"
    "dangerous_perms = filter is_dangerous permissions"
    "urls = sorted_set (manifest_urls (get_android_manifest_xml a) @ file_urls (get_files a))"
    "risk_assessment (debuggable_flag (is_debuggable a)) dangerous_perms urls = (risk, label, reasons)"
    "f ''ok'' = Some (PBool True)"
    "f ''debuggable'' = Some (opt_bool (debuggable_flag (is_debuggable a)))"
    "f ''permissions'' = Some (str_list permissions)"
    "f ''dangerous_permissions'' = Some (str_list (sort dangerous_perms))"
    "f ''urls'' = Some (str_list urls)"
    "f ''risk_score'' = Some (PInt risk)"
    "f ''risk_label'' = Some (PStr label)"
    "f ''risk_reasons'' = Some (str_list reasons)"
    "f ''recommendation'' = Some (PStr (fst (recommendation label)))"
    "f ''recommendation_reason'' = Some (PStr (snd (recommendation label)))"
proof -
  from assms obtain perms where p: "get_permissions a = Inr perms"
    unfolding analyze_parsed_def Let_def by (auto split: sum.splits)
  define permissions where "permissions = sorted_set (or_empty perms)"
  define dangerous_perms where "dangerous_perms = filter is_dangerous permissions"
  define urls where "urls = sorted_set (manifest_urls (get_android_manifest_xml a) @ file_urls (get_files a))"
  obtain risk label reasons where
    ra: "risk_assessment (debuggable_flag (is_debuggable a)) dangerous_perms urls = (risk, label, reasons)"
    by (cases "risk_assessment (debuggable_flag (is_debuggable a)) dangerous_perms urls")
  obtain r rr where rc: "recommendation label = (r, rr)" by (cases "recommendation label")
  from assms p have f: "f = [''ok'' \<mapsto> PBool True,
              ''package_name'' \<mapsto> projr (get_package a),
              ''app_name'' \<mapsto> projr (get_app_name a),
              ''version_name'' \<mapsto> projr (get_androidversion_name a),
              ''version_code'' \<mapsto> projr (get_androidversion_code a),
              ''debuggable'' \<mapsto> opt_bool (debuggable_flag (is_debuggable a)),
              ''permissions'' \<mapsto> str_list permissions,
              ''dangerous_permissions'' \<mapsto> str_list (sort dangerous_perms),
              ''receivers'' \<mapsto> component_list (get_receivers a),
              ''services'' \<mapsto> component_list (get_services a),
              ''activities'' \<mapsto> component_list (get_activities a),
              ''urls'' \<mapsto> str_list urls,
              ''certificates'' \<mapsto> cert_info (get_certificates a),
              ''risk_score'' \<mapsto> PInt risk,
              ''risk_label'' \<mapsto> PStr label,
              ''risk_reasons'' \<mapsto> str_list reasons,
              ''recommendation'' \<mapsto> PStr r,
              ''recommendation_reason'' \<mapsto> PStr rr]"
    unfolding analyze_parsed_def Let_def
    using ra rc
    by (auto simp: permissions_def [symmetric] dangerous_perms_def [symmetric] urls_def [symmetric]
             split: sum.splits)
  show thesis
    by (rule that [OF p permissions_def dangerous_perms_def urls_def ra])
       (simp_all add: f rc)
qed


lemma set_sorted_set: "set (sorted_set xs) = set xs"
  by (simp add: sorted_set_def)

lemma sorted_sorted_set: "sorted (sorted_set xs)"
  by (simp add: sorted_set_def)

lemma distinct_sorted_set: "distinct (sorted_set xs)"
  by (simp add: sorted_set_def)

lemma sorted_set_cong: "set xs = set ys \<Longrightarrow> sorted_set xs = sorted_set ys"
  unfolding sorted_set_def sorted_list_of_set_sort_remdups [symmetric] by simp

lemma sorted_set_fixed: "sorted xs \<Longrightarrow> distinct xs \<Longrightarrow> sorted_set xs = xs"
  by (simp add: sorted_set_def sort_key_id_if_sorted)

lemma str_list_eq: "str_list xs = str_list ys \<longleftrightarrow> xs = ys"
  by (auto simp: str_list_def inj_on_def dest!: map_injective)

lemma clamp_risk_range: "0 \<le> clamp_risk r \<and> clamp_risk r \<le> 10"
  by (simp add: clamp_risk_def)

lemma risk_rules_count:
  assumes "risk_rules d dp urls = (raw, reasons)"
  shows "raw = int (length reasons) + (if 3 \<le> length dp then 1 else 0)"
    and "length reasons \<le> 5"
  using assms by (auto simp: risk_rules_def split: if_splits)

lemma risk_rules_not_debuggable:
  assumes "d \<noteq> Some True"
  shows "risk_rules d dp urls = risk_rules (Some False) dp urls"
    and "''App is debuggable (should be disabled in release builds)''
           \<notin> set (snd (risk_rules d dp urls))"
  using assms by (auto simp: risk_rules_def split: if_splits)

lemma risk_assessmentE:
  assumes "risk_assessment d dp urls = (risk, label, reasons)"
  obtains raw where "risk_rules d dp urls = (raw, reasons)" "risk = clamp_risk raw"
    "label = risk_label risk"
  using assms by (auto simp: risk_assessment_def Let_def split: prod.splits)

lemma risk_rules_scenario:
  assumes "length dp = 4" "length urls = 20"
    and "\<exists>p \<in> set dp. contains p ''SYSTEM_ALERT_WINDOW''"
    and "\<exists>p \<in> set dp. contains p ''REQUEST_INSTALL_PACKAGES''"
  shows "risk_rules (Some True) dp urls =
     (6, [''App is debuggable (should be disabled in release builds)'',
          ''Multiple dangerous permissions declared'',
          ''Lots of embedded URLs (possible trackers/endpoints)'',
          ''Can draw over other apps (SYSTEM_ALERT_WINDOW)'',
          ''Can request to install packages (side-loading)''])"
  using assms by (simp add: risk_rules_def list_ex_iff)

lemma set_file_urls:
  "set (file_urls (Inr files)) = (\<Union>f \<in> {f. PStr f \<in> set files}. set (url_findall f))"
proof (induction files)
  case Nil
  then show ?case by simp
next
  case (Cons v files)
  then show ?case by (cases v) auto
qed

lemma opt_bool_cases: "opt_bool d = PNone \<or> (\<exists>b. opt_bool d = PBool b)"
  by (cases d) auto

lemma opt_bool_True: "opt_bool d = PBool True \<longleftrightarrow> d = Some True"
  by (cases d) auto

lemma risk_rules_debuggable:
  "risk_rules (Some True) dp urls =
     (fst (risk_rules None dp urls) + 1,
      ''App is debuggable (should be disabled in release builds)'' # snd (risk_rules None dp urls))"
  by (simp add: risk_rules_def)

text \<open>The sample packages, analysed.\<close>

lemma sample_eval:
  "case analyze_apk True (\<lambda>p. Inr sample_apk) ''sample.apk'' of
     Inl e \<Rightarrow> False
   | Inr f \<Rightarrow>
       f ''ok'' = Some (PBool True) \<and>
       f ''debuggable'' = Some (PBool True) \<and>
       f ''permissions'' = Some (str_list
         [''android.permission.CAMERA'', ''android.permission.INTERNET'',
          ''android.permission.READ_SMS_X'', ''android.permission.SYSTEM_ALERT_WINDOW'']) \<and>
       f ''dangerous_permissions'' = Some (str_list
         [''android.permission.CAMERA'', ''android.permission.READ_SMS_X'',
          ''android.permission.SYSTEM_ALERT_WINDOW'']) \<and>
       f ''urls'' = Some (str_list
         [''http://b.example/x'', ''http://c.example/y'', ''https://a.example'']) \<and>
       f ''risk_score'' = Some (PInt 4) \<and>
       f ''risk_label'' = Some (PStr ''Medium'') \<and>
       f ''risk_reasons'' = Some (str_list
         [''App is debuggable (should be disabled in release builds)'',
          ''Multiple dangerous permissions declared'',
          ''Can draw over other apps (SYSTEM_ALERT_WINDOW)'']) \<and>
       f ''recommendation'' = Some (PStr ''Recommended installation (Medium risk).'') \<and>
       f ''recommendation_reason'' = Some (PStr
         ''Multiple risk factors detected. Verify the source and review permissions before installation.'')"
  by code_simp

lemma risky_eval:
  "case analyze_apk True (\<lambda>p. Inr risky_apk) ''risky.apk'' of
     Inl e \<Rightarrow> False
   | Inr f \<Rightarrow>
       f ''ok'' = Some (PBool True) \<and>
       f ''debuggable'' = Some (PBool True) \<and>
       f ''dangerous_permissions'' = Some (str_list
         [''android.permission.CAMERA'',
          ''android.permission.REQUEST_INSTALL_PACKAGES'',
          ''android.permission.SEND_SMS'',
          ''android.permission.SYSTEM_ALERT_WINDOW'']) \<and>
       f ''urls'' = Some (str_list (map (\<lambda>s. ''https://cdn.example/'' @ s)
         [''a'', ''b'', ''c'', ''d'', ''e'', ''f'', ''g'', ''h'', ''i'', ''j'',
          ''k'', ''l'', ''m'', ''n'', ''o'', ''p'', ''q'', ''r'', ''s'', ''t'']))"
  by code_simp

lemma undebuggable_eval:
  "case analyze_apk True (\<lambda>p. Inr undebuggable_apk) ''sample.apk'' of
     Inl e \<Rightarrow> False
   | Inr f \<Rightarrow>
       f ''ok'' = Some (PBool True) \<and>
       f ''debuggable'' = Some PNone \<and>
       f ''risk_score'' = Some (PInt 3) \<and>
       f ''risk_reasons'' = Some (str_list
         [''Multiple dangerous permissions declared'',
          ''Can draw over other apps (SYSTEM_ALERT_WINDOW)''])"
  by code_simp

section \<open>\<^verbatim>\<open>to_jsonable\<close> is idempotent\<close>

lemma list_comp_fixed:
  "(\<And>x. x \<in> set xs \<Longrightarrow> f x = Inr x) \<Longrightarrow> list_comp (map f xs) = Inr xs"
  by (induction xs) auto

lemma list_comp_all:
  "list_comp rs = Inr ys \<Longrightarrow> (\<And>r y. r \<in> set rs \<Longrightarrow> r = Inr y \<Longrightarrow> P y) \<Longrightarrow> list_all P ys"
proof (induction rs arbitrary: ys rule: list_comp.induct)
  case 1
  then show ?case by simp
next
  case (2 e rs)
  then show ?case by simp
next
  case (3 v rs)
  then show ?case by (auto split: sum.splits)
qed

lemma dict_set_fresh: "k \<notin> fst ` set d \<Longrightarrow> dict_set k v d = d @ [(k, v)]"
  by (induction k v d rule: dict_set.induct) auto

lemma dict_set_keys: "fst ` set (dict_set k v d) = insert k (fst ` set d)"
  by (induction k v d rule: dict_set.induct) auto

lemma dict_set_distinct: "distinct (map fst d) \<Longrightarrow> distinct (map fst (dict_set k v d))"
  by (induction k v d rule: dict_set.induct) (auto simp: dict_set_keys)

lemma dict_set_items: "set (dict_set k v d) \<subseteq> insert (k, v) (set d)"
  by (induction k v d rule: dict_set.induct) auto

lemma dict_set_json: "json_dict d \<Longrightarrow> jsonable v \<Longrightarrow> json_dict (dict_set (KStr s) v d)"
  unfolding json_dict_def
  using dict_set_distinct [of d "KStr s" v] dict_set_items [of "KStr s" v d]
  by (auto simp: list_all_iff)

text \<open>The comprehension keeps the dict well formed when every value it stores is.\<close>

lemma dict_comp_json:
  "dict_comp d rs = Inr d' \<Longrightarrow> json_dict d \<Longrightarrow>
   (\<And>rk v. (rk, Inr v) \<in> set rs \<Longrightarrow> jsonable v) \<Longrightarrow> json_dict d'"
proof (induction d rs rule: dict_comp.induct)
  case (4 d s v rs)
  have "jsonable v" using 4(4) [of "Inr s" v] by simp
  then have "json_dict (dict_set (KStr s) v d)"
    using 4(3) by (rule dict_set_json [rotated])
  moreover have "dict_comp (dict_set (KStr s) v d) rs = Inr d'"
    using 4(2) by simp
  ultimately show ?case using 4(4) by (intro 4(1)) auto
qed simp_all

text \<open>On a well-formed dict whose values are fixed points the comprehension rebuilds the dict.\<close>

lemma dict_comp_fixed:
  "json_dict (d @ kvs) \<Longrightarrow> (\<And>k v. (k, v) \<in> set kvs \<Longrightarrow> f v = Inr v) \<Longrightarrow>
   dict_comp d (map (\<lambda>(k, v). (key_str k, f v)) kvs) = Inr (d @ kvs)"
proof (induction kvs arbitrary: d)
  case Nil
  then show ?case by simp
next
  case (Cons kv kvs)
  obtain k v where kv: "kv = (k, v)" by (cases kv)
  from Cons.prems(1) obtain s where k: "k = KStr s"
    unfolding json_dict_def kv by (cases k) auto
  from Cons.prems(1) have fresh: "k \<notin> fst ` set d"
    unfolding json_dict_def kv by auto
  have fv: "f v = Inr v" using Cons.prems(2) [of k v] kv by simp
  have "json_dict ((d @ [(k, v)]) @ kvs)" using Cons.prems(1) kv by simp
  then have "dict_comp (d @ [(k, v)]) (map (\<lambda>(k, v). (key_str k, f v)) kvs)
      = Inr ((d @ [(k, v)]) @ kvs)"
    using Cons.prems(2) by (intro Cons.IH) auto
  then show ?case
    using fresh by (simp add: kv k fv dict_set_fresh)
qed

lemma jsonable_fixed: "jsonable w \<Longrightarrow> to_jsonable w = Inr w"
proof (induction w rule: to_jsonable.induct)
  case (8 kvs)
  have "json_dict ([] @ kvs)" using 8(2) by (simp add: json_dict_def)
  moreover have "\<And>k v. (k, v) \<in> set kvs \<Longrightarrow> to_jsonable v = Inr v"
    using 8 by (auto simp: list_all_iff)
  ultimately have
    "dict_comp [] (map (\<lambda>(k, v). (key_str k, to_jsonable v)) kvs) = Inr ([] @ kvs)"
    by (rule dict_comp_fixed)
  then show ?case by simp
next
  case (9 xs)
  then have "list_comp (map to_jsonable xs) = Inr xs"
    by (intro list_comp_fixed) (auto simp: list_all_iff)
  then show ?case by simp
qed simp_all

lemma to_jsonable_jsonable: "to_jsonable v = Inr w \<Longrightarrow> jsonable w"
proof (induction v arbitrary: w rule: to_jsonable.induct)
  case (8 kvs)
  then obtain d where
    d: "dict_comp [] (map (\<lambda>(k, v). (key_str k, to_jsonable v)) kvs) = Inr d" and
    w: "w = PDict d"
    by (auto split: sum.splits)
  have "json_dict d"
  proof (rule dict_comp_json [OF d])
    show "json_dict []" by (simp add: json_dict_def)
  next
    fix rk v
    assume "(rk, Inr v) \<in> set (map (\<lambda>(k, v). (key_str k, to_jsonable v)) kvs)"
    then obtain k u where "(k, u) \<in> set kvs" "to_jsonable u = Inr v" by auto
    then show "jsonable v" using 8(1) by blast
  qed
  then show ?case by (simp add: w json_dict_def)
next
  case (9 xs)
  then obtain ys where ys: "list_comp (map to_jsonable xs) = Inr ys" and w: "w = PList ys"
    by (auto split: sum.splits)
  have "list_all jsonable ys"
    by (rule list_comp_all [OF ys]) (use 9(1) in auto)
  then show ?case by (simp add: w)
next
  case (10 xs)
  then obtain ys where ys: "list_comp (map to_jsonable xs) = Inr ys" and w: "w = PList ys"
    by (auto split: sum.splits)
  have "list_all jsonable ys"
    by (rule list_comp_all [OF ys]) (use 10(1) in auto)
  then show ?case by (simp add: w)
next
  case (11 xs)
  then obtain ys where ys: "list_comp (map to_jsonable xs) = Inr ys" and w: "w = PList ys"
    by (auto split: sum.splits)
  have "list_all jsonable ys"
    by (rule list_comp_all [OF ys]) (use 11(1) in auto)
  then show ?case by (simp add: w)
qed (auto split: sum.splits)

section \<open>The claims\<close>

subsection \<open>Field extraction: the unguarded calls\<close>

text \<open>
  Claim C1. The spec has every field of a parsed package extracted defensively: a call on the
  parser that raises gives the field a safe default and the result still has
  \<^verbatim>\<open>ok = true\<close>. The code does this for the debuggable flag, the components, the
  manifest text, the file list and the certificates, but calls \<^verbatim>\<open>get_package\<close>,
  \<^verbatim>\<open>get_app_name\<close>, \<^verbatim>\<open>get_androidversion_name\<close>, \<^verbatim>\<open>get_androidversion_code\<close> and
  \<^verbatim>\<open>get_permissions\<close> outside every \<^verbatim>\<open>try\<close>. On the sample package, a raise of any
  one of these five leaves \<^verbatim>\<open>analyze_apk\<close> as an exception: no result is produced.
\<close>

theorem unguarded_getters_abort:
  "analyze_apk True (\<lambda>p. Inr (sample_apk\<lparr>get_package := Inl (Exception ''no manifest tag'')\<rparr>))
      ''sample.apk'' = Inl (Exception ''no manifest tag'') \<and>
   analyze_apk True (\<lambda>p. Inr (sample_apk\<lparr>get_app_name := Inl (Exception ''bad resources'')\<rparr>))
      ''sample.apk'' = Inl (Exception ''bad resources'') \<and>
   analyze_apk True (\<lambda>p. Inr (sample_apk\<lparr>get_androidversion_name := Inl (Exception ''bad resources'')\<rparr>))
      ''sample.apk'' = Inl (Exception ''bad resources'') \<and>
   analyze_apk True (\<lambda>p. Inr (sample_apk\<lparr>get_androidversion_code := Inl (Exception ''bad resources'')\<rparr>))
      ''sample.apk'' = Inl (Exception ''bad resources'') \<and>
   analyze_apk True (\<lambda>p. Inr (sample_apk\<lparr>get_permissions := Inl (Exception ''bad manifest'')\<rparr>))
      ''sample.apk'' = Inl (Exception ''bad manifest'')"
  by (simp add: analyze_apk_def analyze_parsed_def sample_apk_def)

theorem unguarded_getters_abort_witness:
  "\<exists>e. analyze_apk True
          (\<lambda>p. Inr (sample_apk\<lparr>get_app_name := Inl (Exception ''bad resources'')\<rparr>))
          ''sample.apk'' = Inl e"
  using unguarded_getters_abort by blast

subsection \<open>Score range and label\<close>

text \<open>
  Claim C2. In every successful analysis \<^verbatim>\<open>risk_score\<close> is an integer from 0 to 10, being the
  clamped sum of the rule contributions (the clamp lands in that range whatever the sum
  is), and \<^verbatim>\<open>risk_label\<close> is a function of the score: at most 2 gives Low, 3 to 5 gives
  Medium, 6 and more gives High.
\<close>

theorem risk_score_range_and_label:
  assumes "analyze_apk ANDRO_OK APK apk_path = Inr findings"
    and "findings ''ok'' = Some (PBool True)"
  shows "\<exists>score label.
     findings ''risk_score'' = Some (PInt score) \<and>
     findings ''risk_label'' = Some (PStr label) \<and>
     0 \<le> score \<and> score \<le> 10 \<and>
     (score \<le> 2 \<longrightarrow> label = ''Low'') \<and>
     (3 \<le> score \<and> score \<le> 5 \<longrightarrow> label = ''Medium'') \<and>
     (6 \<le> score \<longrightarrow> label = ''High'') \<and>
     label = risk_label score \<and>
     (\<exists>raw. score = clamp_risk raw) \<and>
     (\<forall>raw. 0 \<le> clamp_risk raw \<and> clamp_risk raw \<le> 10)"
proof -
  from assms obtain a where a: "analyze_parsed a = Inr findings"
    by (rule analyze_apk_success)
  from a obtain d dp urls risk label reasons where
    ra: "risk_assessment d dp urls = (risk, label, reasons)" and
    f: "findings ''risk_score'' = Some (PInt risk)" "findings ''risk_label'' = Some (PStr label)"
    by (rule analyze_parsed_fields)
  from ra obtain raw where raw: "risk = clamp_risk raw" "label = risk_label risk"
    by (rule risk_assessmentE)
  have "0 \<le> risk" "risk \<le> 10"
    using clamp_risk_range [of raw] raw(1) by simp_all
  moreover have "risk \<le> 2 \<longrightarrow> label = ''Low''"
    "3 \<le> risk \<and> risk \<le> 5 \<longrightarrow> label = ''Medium''" "6 \<le> risk \<longrightarrow> label = ''High''"
    using raw(2) by (simp_all add: risk_label_def)
  ultimately show ?thesis
    using f raw clamp_risk_range by blast
qed

theorem risk_score_range_and_label_witness:
  "\<exists>findings. analyze_apk True (\<lambda>p. Inr sample_apk) ''sample.apk'' = Inr findings \<and>
     findings ''ok'' = Some (PBool True) \<and>
     findings ''risk_score'' = Some (PInt 4) \<and>
     findings ''risk_label'' = Some (PStr ''Medium'') \<and>
     risk_label 4 = ''Medium'' \<and> (\<exists>raw. 4 = clamp_risk raw)"
proof -
  from sample_eval obtain f where
    f: "analyze_apk True (\<lambda>p. Inr sample_apk) ''sample.apk'' = Inr f"
       "f ''ok'' = Some (PBool True)"
       "f ''risk_score'' = Some (PInt 4)" "f ''risk_label'' = Some (PStr ''Medium'')"
    by (auto split: sum.splits)
  from risk_score_range_and_label [OF f(1,2)] f show ?thesis by auto
qed

subsection \<open>Parse failure\<close>

text \<open>
  Claim C3. When the parser raises on the package, \<^verbatim>\<open>analyze_apk\<close> returns the dict with exactly
  the keys \<^verbatim>\<open>ok\<close> and \<^verbatim>\<open>error\<close>: \<^verbatim>\<open>ok\<close> is false and \<^verbatim>\<open>error\<close> is the parser's message
  after the words "Failed to parse APK: ". Nothing of the later steps is in the result,
  which depends on the message alone.
\<close>

theorem parse_failure_result:
  assumes "APK apk_path = Inl e"
  shows "analyze_apk True APK apk_path
       = Inr [''ok'' \<mapsto> PBool False,
              ''error'' \<mapsto> PStr (''Failed to parse APK: '' @ exn_str e)] \<and>
     (\<exists>findings. analyze_apk True APK apk_path = Inr findings \<and>
        dom findings = {''ok'', ''error''} \<and>
        findings ''ok'' = Some (PBool False) \<and>
        findings ''error'' = Some (PStr (''Failed to parse APK: '' @ exn_str e)))"
  using assms by (auto simp: analyze_apk_def)

theorem parse_failure_result_witness:
  "(\<lambda>p. Inl (Exception ''File is not a zip file'') :: exn + apk) ''broken.apk''
     = Inl (Exception ''File is not a zip file'') \<and>
   (\<exists>findings. analyze_apk True (\<lambda>p. Inl (Exception ''File is not a zip file'')) ''broken.apk''
        = Inr findings \<and>
      dom findings = {''ok'', ''error''} \<and>
      findings ''ok'' = Some (PBool False) \<and>
      findings ''error'' = Some (PStr ''Failed to parse APK: File is not a zip file''))"
proof -
  have "analyze_apk True (\<lambda>p. Inl (Exception ''File is not a zip file'')) ''broken.apk''
       = Inr [''ok'' \<mapsto> PBool False,
              ''error'' \<mapsto> PStr (''Failed to parse APK: ''
                                      @ exn_str (Exception ''File is not a zip file''))] \<and>
     (\<exists>findings.
        analyze_apk True (\<lambda>p. Inl (Exception ''File is not a zip file'')) ''broken.apk''
          = Inr findings \<and>
        dom findings = {''ok'', ''error''} \<and>
        findings ''ok'' = Some (PBool False) \<and>
        findings ''error'' = Some (PStr (''Failed to parse APK: ''
                                      @ exn_str (Exception ''File is not a zip file''))))"
    by (rule parse_failure_result
          [of "\<lambda>p. Inl (Exception ''File is not a zip file'')" "''broken.apk''"
              "Exception ''File is not a zip file''"]) simp
  then obtain findings where
    "analyze_apk True (\<lambda>p. Inl (Exception ''File is not a zip file'')) ''broken.apk''
        = Inr findings"
    "dom findings = {''ok'', ''error''}"
    "findings ''ok'' = Some (PBool False)"
    "findings ''error''
       = Some (PStr (''Failed to parse APK: '' @ exn_str (Exception ''File is not a zip file'')))"
    by blast
  then show ?thesis by auto
qed

subsection \<open>The high-risk scenario\<close>

text \<open>
  Claim C4. An analysis that reports \<^verbatim>\<open>debuggable = true\<close>, exactly four dangerous
  permissions, one of them containing SYSTEM_ALERT_WINDOW and one containing
  REQUEST_INSTALL_PACKAGES, and twenty URLs has \<^verbatim>\<open>risk_score\<close> 6 = 1 + 2 + 1 + 1 + 1 and
  \<^verbatim>\<open>risk_label\<close> High; so has the scorer on any such facts.
\<close>

theorem scenario_high_risk:
  assumes "analyze_apk ANDRO_OK APK apk_path = Inr findings"
    and "findings ''ok'' = Some (PBool True)"
    and "findings ''debuggable'' = Some (PBool True)"
    and "findings ''dangerous_permissions'' = Some (str_list dangerous)"
    and "length dangerous = 4"
    and "\<exists>p \<in> set dangerous. contains p ''SYSTEM_ALERT_WINDOW''"
    and "\<exists>p \<in> set dangerous. contains p ''REQUEST_INSTALL_PACKAGES''"
    and "findings ''urls'' = Some (str_list urls)"
    and "length urls = 20"
  shows "findings ''risk_score'' = Some (PInt 6) \<and> (6 :: int) = 1 + 2 + 1 + 1 + 1 \<and>
     findings ''risk_label'' = Some (PStr ''High'') \<and>
     fst (risk_assessment (Some True) dangerous urls) = 6 \<and>
     fst (snd (risk_assessment (Some True) dangerous urls)) = ''High''"
proof -
  from assms(1,2) obtain a where a: "analyze_parsed a = Inr findings"
    by (rule analyze_apk_success)
  from a obtain dp us risk label reasons where
    ra: "risk_assessment (debuggable_flag (is_debuggable a)) dp us = (risk, label, reasons)" and
    f: "findings ''debuggable'' = Some (opt_bool (debuggable_flag (is_debuggable a)))"
       "findings ''dangerous_permissions'' = Some (str_list (sort dp))"
       "findings ''urls'' = Some (str_list us)"
       "findings ''risk_score'' = Some (PInt risk)"
       "findings ''risk_label'' = Some (PStr label)"
    by (rule analyze_parsed_fields)
  have d: "debuggable_flag (is_debuggable a) = Some True"
    using f(1) assms(3) opt_bool_True [of "debuggable_flag (is_debuggable a)"] by auto
  have dp: "sort dp = dangerous" using f(2) assms(4) by (simp add: str_list_eq)
  have us: "us = urls" using f(3) assms(8) by (simp add: str_list_eq)
  have "length dp = 4" using dp assms(5) by (metis length_sort)
  moreover have "set dp = set dangerous" using dp by (metis set_sort)
  ultimately have "risk_rules (Some True) dp us =
     (6, [''App is debuggable (should be disabled in release builds)'',
          ''Multiple dangerous permissions declared'',
          ''Lots of embedded URLs (possible trackers/endpoints)'',
          ''Can draw over other apps (SYSTEM_ALERT_WINDOW)'',
          ''Can request to install packages (side-loading)''])"
    using assms(6,7,9) us by (intro risk_rules_scenario) simp_all
  then have "risk = 6" "label = ''High''"
    using ra d by (simp_all add: risk_assessment_def clamp_risk_def risk_label_def)
  moreover have "risk_rules (Some True) dangerous urls =
     (6, [''App is debuggable (should be disabled in release builds)'',
          ''Multiple dangerous permissions declared'',
          ''Lots of embedded URLs (possible trackers/endpoints)'',
          ''Can draw over other apps (SYSTEM_ALERT_WINDOW)'',
          ''Can request to install packages (side-loading)''])"
    using assms(5,6,7,9) by (intro risk_rules_scenario) simp_all
  then have "fst (risk_assessment (Some True) dangerous urls) = 6"
    "fst (snd (risk_assessment (Some True) dangerous urls)) = ''High''"
    by (simp_all add: risk_assessment_def clamp_risk_def risk_label_def)
  ultimately show ?thesis using f by simp
qed

theorem scenario_high_risk_witness:
  "\<exists>findings. analyze_apk True (\<lambda>p. Inr risky_apk) ''risky.apk'' = Inr findings \<and>
     findings ''ok'' = Some (PBool True) \<and>
     findings ''debuggable'' = Some (PBool True) \<and>
     findings ''dangerous_permissions'' = Some (str_list
         [''android.permission.CAMERA'',
          ''android.permission.REQUEST_INSTALL_PACKAGES'',
          ''android.permission.SEND_SMS'',
          ''android.permission.SYSTEM_ALERT_WINDOW'']) \<and>
     findings ''urls'' = Some (str_list (map (\<lambda>s. ''https://cdn.example/'' @ s)
         [''a'', ''b'', ''c'', ''d'', ''e'', ''f'', ''g'', ''h'', ''i'', ''j'',
          ''k'', ''l'', ''m'', ''n'', ''o'', ''p'', ''q'', ''r'', ''s'', ''t''])) \<and>
     findings ''risk_score'' = Some (PInt 6) \<and>
     findings ''risk_label'' = Some (PStr ''High'')"
proof -
  from risky_eval obtain f where
    f: "analyze_apk True (\<lambda>p. Inr risky_apk) ''risky.apk'' = Inr f"
       "f ''ok'' = Some (PBool True)"
       "f ''debuggable'' = Some (PBool True)"
       "f ''dangerous_permissions'' = Some (str_list
         [''android.permission.CAMERA'',
          ''android.permission.REQUEST_INSTALL_PACKAGES'',
          ''android.permission.SEND_SMS'',
          ''android.permission.SYSTEM_ALERT_WINDOW''])"
       "f ''urls'' = Some (str_list (map (\<lambda>s. ''https://cdn.example/'' @ s)
         [''a'', ''b'', ''c'', ''d'', ''e'', ''f'', ''g'', ''h'', ''i'', ''j'',
          ''k'', ''l'', ''m'', ''n'', ''o'', ''p'', ''q'', ''r'', ''s'', ''t'']))"
    by (auto split: sum.splits)
  have saw: "\<exists>p \<in> set [''android.permission.CAMERA'',
          ''android.permission.REQUEST_INSTALL_PACKAGES'',
          ''android.permission.SEND_SMS'',
          ''android.permission.SYSTEM_ALERT_WINDOW'']. contains p ''SYSTEM_ALERT_WINDOW''"
    by code_simp
  have rip: "\<exists>p \<in> set [''android.permission.CAMERA'',
          ''android.permission.REQUEST_INSTALL_PACKAGES'',
          ''android.permission.SEND_SMS'',
          ''android.permission.SYSTEM_ALERT_WINDOW'']. contains p ''REQUEST_INSTALL_PACKAGES''"
    by code_simp
  from scenario_high_risk [OF f(1,2,3,4) _ saw rip f(5)] f show ?thesis by simp
qed

subsection \<open>Permissions\<close>

text \<open>
  Claim C5. In every successful analysis \<^verbatim>\<open>dangerous_permissions\<close> is a subset of
  \<^verbatim>\<open>permissions\<close>, both lists are sorted ascending and free of duplicates, and a
  permission is in \<^verbatim>\<open>dangerous_permissions\<close> exactly when one of the 18 fixed prefixes,
  each starting with \<^verbatim>\<open>android.permission.\<close>, is a prefix of it, character for character.
  The permissions are those the parser declared.
\<close>

theorem permissions_sorted_and_classified:
  assumes "analyze_apk ANDRO_OK APK apk_path = Inr findings"
    and "findings ''ok'' = Some (PBool True)"
  shows "\<exists>permissions dangerous.
     findings ''permissions'' = Some (str_list permissions) \<and>
     findings ''dangerous_permissions'' = Some (str_list dangerous) \<and>
     set dangerous \<subseteq> set permissions \<and>
     sorted permissions \<and> distinct permissions \<and>
     sorted dangerous \<and> distinct dangerous \<and>
     (\<forall>p \<in> set permissions.
        p \<in> set dangerous \<longleftrightarrow> (\<exists>dp \<in> set dangerous_perm_prefixes. prefix dp p)) \<and>
     length dangerous_perm_prefixes = 18 \<and> distinct dangerous_perm_prefixes \<and>
     (\<forall>dp \<in> set dangerous_perm_prefixes. prefix ''android.permission.'' dp) \<and>
     (\<forall>a perms. APK apk_path = Inr a \<and> get_permissions a = Inr perms \<longrightarrow>
        set permissions = set (or_empty perms))"
proof -
  from assms obtain a where apk: "APK apk_path = Inr a" and a: "analyze_parsed a = Inr findings"
    by (rule analyze_apk_success)
  from a obtain perms permissions dp where
    p: "get_permissions a = Inr perms"
       "permissions = sorted_set (or_empty perms)"
       "dp = filter is_dangerous permissions" and
    f: "findings ''permissions'' = Some (str_list permissions)"
       "findings ''dangerous_permissions'' = Some (str_list (sort dp))"
    by (rule analyze_parsed_fields)
  have 1: "set (sort dp) \<subseteq> set permissions" using p(3) by auto
  have 2: "sorted permissions" "distinct permissions"
    using p(2) by (simp_all add: sorted_sorted_set distinct_sorted_set)
  have 3: "sorted (sort dp)" "distinct (sort dp)"
    using p(3) 2 by simp_all
  have 4: "\<forall>p \<in> set permissions.
        p \<in> set (sort dp) \<longleftrightarrow> (\<exists>dp \<in> set dangerous_perm_prefixes. prefix dp p)"
    using p(3) by (auto simp: is_dangerous_def list_ex_iff startswith_def)
  have 5: "length dangerous_perm_prefixes = 18" "distinct dangerous_perm_prefixes"
    "\<forall>dp \<in> set dangerous_perm_prefixes. prefix ''android.permission.'' dp"
    by (simp_all add: dangerous_perm_prefixes_def)
  have 6: "\<forall>a perms. APK apk_path = Inr a \<and> get_permissions a = Inr perms \<longrightarrow>
        set permissions = set (or_empty perms)"
    using apk p(1,2) by (auto simp: set_sorted_set)
  show ?thesis
    using f 1 2 3 4 5 6 by blast
qed

theorem permissions_sorted_and_classified_witness:
  "\<exists>findings. analyze_apk True (\<lambda>p. Inr sample_apk) ''sample.apk'' = Inr findings \<and>
     findings ''ok'' = Some (PBool True) \<and>
     findings ''permissions'' = Some (str_list
       [''android.permission.CAMERA'', ''android.permission.INTERNET'',
        ''android.permission.READ_SMS_X'', ''android.permission.SYSTEM_ALERT_WINDOW'']) \<and>
     findings ''dangerous_permissions'' = Some (str_list
       [''android.permission.CAMERA'', ''android.permission.READ_SMS_X'',
        ''android.permission.SYSTEM_ALERT_WINDOW'']) \<and>
     (\<exists>permissions dangerous.
        findings ''permissions'' = Some (str_list permissions) \<and>
        findings ''dangerous_permissions'' = Some (str_list dangerous) \<and>
        set dangerous \<subseteq> set permissions \<and>
        sorted permissions \<and> distinct permissions \<and>
        sorted dangerous \<and> distinct dangerous)"
proof -
  from sample_eval obtain f where
    f: "analyze_apk True (\<lambda>p. Inr sample_apk) ''sample.apk'' = Inr f"
       "f ''ok'' = Some (PBool True)"
       "f ''permissions'' = Some (str_list
         [''android.permission.CAMERA'', ''android.permission.INTERNET'',
          ''android.permission.READ_SMS_X'', ''android.permission.SYSTEM_ALERT_WINDOW''])"
       "f ''dangerous_permissions'' = Some (str_list
         [''android.permission.CAMERA'', ''android.permission.READ_SMS_X'',
          ''android.permission.SYSTEM_ALERT_WINDOW''])"
    by (auto split: sum.splits)
  from permissions_sorted_and_classified [OF f(1,2)] f show ?thesis by blast
qed

subsection \<open>URLs\<close>

text \<open>
  Claim C6. For a manifest text and a file listing, \<^verbatim>\<open>urls\<close> holds the matches of the URL pattern
  in the manifest text and in every string entry of the listing, pooled in one set
  (entries that are not strings add nothing), without duplicates and sorted ascending.
  The list does not depend on the order or multiplicity in which the matches were pooled,
  and analysing the same input again gives the same result.
\<close>

theorem urls_pooled_sorted_distinct:
  assumes "analyze_apk ANDRO_OK APK apk_path = Inr findings"
    and "findings ''ok'' = Some (PBool True)"
    and "APK apk_path = Inr a"
    and "get_android_manifest_xml a = Inr (WithToxml (Inr (Some manifest_xml)))
       \<or> get_android_manifest_xml a = Inr (NoToxml (Inr manifest_xml))"
    and "get_files a = Inr files"
  shows "\<exists>urls.
     findings ''urls'' = Some (str_list urls) \<and>
     set urls = set (url_findall manifest_xml)
                \<union> (\<Union>f \<in> {f. PStr f \<in> set files}. set (url_findall f)) \<and>
     distinct urls \<and> sorted urls \<and>
     (\<forall>pool. set pool = set urls \<longrightarrow> sorted_set pool = urls) \<and>
     (\<forall>findings'. analyze_apk ANDRO_OK APK apk_path = Inr findings' \<longrightarrow> findings' = findings)"
proof -
  from assms(1,2) obtain a' where apk: "APK apk_path = Inr a'"
    and a': "analyze_parsed a' = Inr findings"
    by (rule analyze_apk_success)
  have a: "analyze_parsed a = Inr findings" using apk a' assms(3) by simp
  from a obtain urls where
    u: "urls = sorted_set (manifest_urls (get_android_manifest_xml a) @ file_urls (get_files a))"
    and f: "findings ''urls'' = Some (str_list urls)"
    by (rule analyze_parsed_fields)
  have m: "manifest_urls (get_android_manifest_xml a) = url_findall manifest_xml"
    using assms(4) by auto
  have "set urls = set (url_findall manifest_xml)
                \<union> (\<Union>f \<in> {f. PStr f \<in> set files}. set (url_findall f))"
    unfolding u m assms(5) set_sorted_set set_append set_file_urls ..
  moreover have "distinct urls" "sorted urls"
    unfolding u by (rule distinct_sorted_set, rule sorted_sorted_set)
  moreover have "\<forall>pool. set pool = set urls \<longrightarrow> sorted_set pool = urls"
  proof (intro allI impI)
    fix pool :: "string list"
    assume "set pool = set urls"
    then have "sorted_set pool = sorted_set urls" by (rule sorted_set_cong)
    also have "\<dots> = urls"
      using \<open>distinct urls\<close> \<open>sorted urls\<close> by (rule sorted_set_fixed [rotated])
    finally show "sorted_set pool = urls" .
  qed
  moreover have "\<forall>findings'. analyze_apk ANDRO_OK APK apk_path = Inr findings' \<longrightarrow> findings' = findings"
    using assms(1) by simp
  ultimately show ?thesis using f by blast
qed

theorem urls_pooled_sorted_distinct_witness:
  "\<exists>findings. analyze_apk True (\<lambda>p. Inr sample_apk) ''sample.apk'' = Inr findings \<and>
     findings ''ok'' = Some (PBool True) \<and>
     get_android_manifest_xml sample_apk
       = Inr (WithToxml (Inr (Some ''<a href=http://b.example/x> https://a.example''))) \<and>
     get_files sample_apk
       = Inr [PStr ''assets/http://c.example/y'', PNone, PStr ''res/https://a.example''] \<and>
     findings ''urls'' = Some (str_list
       [''http://b.example/x'', ''http://c.example/y'', ''https://a.example'']) \<and>
     set [''http://b.example/x'', ''http://c.example/y'', ''https://a.example'']
       = set (url_findall ''<a href=http://b.example/x> https://a.example'')
         \<union> (\<Union>f \<in> {f. PStr f \<in> set [PStr ''assets/http://c.example/y'', PNone,
                                        PStr ''res/https://a.example'']}.
              set (url_findall f))"
proof -
  from sample_eval obtain f where
    f: "analyze_apk True (\<lambda>p. Inr sample_apk) ''sample.apk'' = Inr f"
       "f ''ok'' = Some (PBool True)"
       "f ''urls'' = Some (str_list
         [''http://b.example/x'', ''http://c.example/y'', ''https://a.example''])"
    by (auto split: sum.splits)
  have m: "get_android_manifest_xml sample_apk
       = Inr (WithToxml (Inr (Some ''<a href=http://b.example/x> https://a.example'')))
     \<or> get_android_manifest_xml sample_apk
       = Inr (NoToxml (Inr ''<a href=http://b.example/x> https://a.example''))"
    by (simp add: sample_apk_def)
  have fs: "get_files sample_apk
       = Inr [PStr ''assets/http://c.example/y'', PNone, PStr ''res/https://a.example'']"
    by (simp add: sample_apk_def)
  from urls_pooled_sorted_distinct [OF f(1,2) refl m fs] obtain urls where
    u: "f ''urls'' = Some (str_list urls)"
       "set urls = set (url_findall ''<a href=http://b.example/x> https://a.example'')
         \<union> (\<Union>f \<in> {f. PStr f \<in> set [PStr ''assets/http://c.example/y'', PNone,
                                        PStr ''res/https://a.example'']}.
              set (url_findall f))"
    by blast
  have "urls = [''http://b.example/x'', ''http://c.example/y'', ''https://a.example'']"
    using u(1) f(3) by (simp add: str_list_eq)
  then show ?thesis using f u(2) m fs by (auto simp: sample_apk_def)
qed

subsection \<open>Recommendation\<close>

text \<open>
  Claim C7. Every successful analysis has one recommendation and one recommendation reason, both
  determined by \<^verbatim>\<open>risk_label\<close> alone, through the table of three entries for Low, Medium
  and High.
\<close>

theorem recommendation_by_label:
  assumes "analyze_apk ANDRO_OK APK apk_path = Inr findings"
    and "findings ''ok'' = Some (PBool True)"
  shows "\<exists>label rec reason.
     findings ''risk_label'' = Some (PStr label) \<and>
     findings ''recommendation'' = Some (PStr rec) \<and>
     findings ''recommendation_reason'' = Some (PStr reason) \<and>
     (rec, reason) = recommendation label \<and>
     (label = ''Low'' \<and> rec = ''Generally safe (Low risk).'' \<and>
        reason = ''No significant risk factors detected. Verify the source.''
      \<or> label = ''Medium'' \<and> rec = ''Recommended installation (Medium risk).'' \<and>
        reason = ''Multiple risk factors detected. Verify the source and review permissions before installation.''
      \<or> label = ''High'' \<and> rec = ''Install caution is advised (High risk).'' \<and>
        reason = ''Dangerous permissions or behavior detected. Avoid installing from untrusted sources.'')"
proof -
  from assms obtain a where a: "analyze_parsed a = Inr findings"
    by (rule analyze_apk_success)
  from a obtain d dp urls risk label reasons where
    ra: "risk_assessment d dp urls = (risk, label, reasons)" and
    f: "findings ''risk_label'' = Some (PStr label)"
       "findings ''recommendation'' = Some (PStr (fst (recommendation label)))"
       "findings ''recommendation_reason'' = Some (PStr (snd (recommendation label)))"
    by (rule analyze_parsed_fields)
  from ra have "label = risk_label risk"
    by (rule risk_assessmentE)
  then consider "label = ''Low''" | "label = ''Medium''" | "label = ''High''"
    by (auto simp: risk_label_def split: if_splits)
  then show ?thesis
  proof cases
    case 1
    then show ?thesis using f by (simp add: recommendation_def)
  next
    case 2
    then show ?thesis using f by (simp add: recommendation_def)
  next
    case 3
    then show ?thesis using f by (simp add: recommendation_def)
  qed
qed

theorem recommendation_by_label_witness:
  "\<exists>findings. analyze_apk True (\<lambda>p. Inr sample_apk) ''sample.apk'' = Inr findings \<and>
     findings ''ok'' = Some (PBool True) \<and>
     findings ''risk_label'' = Some (PStr ''Medium'') \<and>
     findings ''recommendation'' = Some (PStr ''Recommended installation (Medium risk).'') \<and>
     findings ''recommendation_reason'' = Some (PStr
       ''Multiple risk factors detected. Verify the source and review permissions before installation.'') \<and>
     (\<exists>rec reason. findings ''recommendation'' = Some (PStr rec) \<and>
        findings ''recommendation_reason'' = Some (PStr reason) \<and>
        (rec, reason) = recommendation ''Medium'')"
proof -
  from sample_eval obtain f where
    f: "analyze_apk True (\<lambda>p. Inr sample_apk) ''sample.apk'' = Inr f"
       "f ''ok'' = Some (PBool True)"
       "f ''risk_label'' = Some (PStr ''Medium'')"
       "f ''recommendation'' = Some (PStr ''Recommended installation (Medium risk).'')"
       "f ''recommendation_reason'' = Some (PStr
         ''Multiple risk factors detected. Verify the source and review permissions before installation.'')"
    by (auto split: sum.splits)
  from recommendation_by_label [OF f(1,2)] f show ?thesis by auto
qed

subsection \<open>Idempotence of \<^verbatim>\<open>to_jsonable\<close>\<close>

text \<open>
  Claim C8. \<^verbatim>\<open>to_jsonable\<close> is idempotent: on every value, applying it twice gives what
  applying it once gives (the same raise when the first application raises), because
  whatever it returns is built from \<^verbatim>\<open>None\<close>, booleans, numbers, strings, lists of such
  values and dicts with string keys and such values, and each such value is a fixed
  point of the function.
\<close>

theorem to_jsonable_idempotent:
  "to_jsonable_twice v = to_jsonable v \<and>
   (\<forall>w. to_jsonable v = Inr w \<longrightarrow> jsonable w \<and> to_jsonable w = Inr w)"
  using to_jsonable_jsonable jsonable_fixed
  by (auto simp: to_jsonable_twice_def split: sum.splits)

theorem to_jsonable_idempotent_witness:
  "to_jsonable sample_value
     = Inr (PDict [(KStr ''1'', PList [PStr ''b'']), (KStr ''z'', PStr ''<obj>'')]) \<and>
   to_jsonable_twice sample_value = to_jsonable sample_value \<and>
   jsonable (PDict [(KStr ''1'', PList [PStr ''b'']), (KStr ''z'', PStr ''<obj>'')]) \<and>
   to_jsonable (PDict [(KStr ''1'', PList [PStr ''b'']), (KStr ''z'', PStr ''<obj>'')])
     = Inr (PDict [(KStr ''1'', PList [PStr ''b'']), (KStr ''z'', PStr ''<obj>'')])"
proof -
  have e: "to_jsonable sample_value
     = Inr (PDict [(KStr ''1'', PList [PStr ''b'']), (KStr ''z'', PStr ''<obj>'')])"
    by (simp add: sample_value_def)
  from to_jsonable_idempotent [of sample_value] e show ?thesis by simp
qed

subsection \<open>Score and reasons\<close>

text \<open>
  Claim C9. In every successful analysis \<^verbatim>\<open>risk_score\<close> is 0 exactly when \<^verbatim>\<open>risk_reasons\<close> is
  empty. Every rule that fires adds one reason and at least 1 to the score (2 for the
  rule of three or more dangerous permissions), so there are at most 5 reasons and their
  number is at most the score before the clamp, which the clamp leaves unchanged.
\<close>

theorem score_zero_iff_no_reasons:
  assumes "analyze_apk ANDRO_OK APK apk_path = Inr findings"
    and "findings ''ok'' = Some (PBool True)"
  shows "\<exists>score reasons raw d dp urls.
     findings ''risk_score'' = Some (PInt score) \<and>
     findings ''risk_reasons'' = Some (str_list reasons) \<and>
     findings ''debuggable'' = Some (opt_bool d) \<and>
     findings ''dangerous_permissions'' = Some (str_list (sort dp)) \<and>
     findings ''urls'' = Some (str_list urls) \<and>
     risk_rules d dp urls = (raw, reasons) \<and> score = clamp_risk raw \<and>
     (score = 0 \<longleftrightarrow> reasons = []) \<and>
     length reasons \<le> 5 \<and>
     int (length reasons) \<le> raw \<and>
     raw = int (length reasons) + (if 3 \<le> length dp then 1 else 0) \<and>
     score = raw"
proof -
  from assms obtain a where a: "analyze_parsed a = Inr findings"
    by (rule analyze_apk_success)
  define d where "d = debuggable_flag (is_debuggable a)"
  from a obtain dp urls risk label reasons where
    ra: "risk_assessment d dp urls = (risk, label, reasons)" and
    f: "findings ''risk_score'' = Some (PInt risk)"
       "findings ''risk_reasons'' = Some (str_list reasons)"
       "findings ''debuggable'' = Some (opt_bool d)"
       "findings ''dangerous_permissions'' = Some (str_list (sort dp))"
       "findings ''urls'' = Some (str_list urls)"
    unfolding d_def by (rule analyze_parsed_fields)
  from ra obtain raw where raw: "risk_rules d dp urls = (raw, reasons)" "risk = clamp_risk raw"
    by (rule risk_assessmentE)
  have cnt: "raw = int (length reasons) + (if 3 \<le> length dp then 1 else 0)"
    "length reasons \<le> 5"
    using risk_rules_count [OF raw(1)] by simp_all
  have id: "risk = raw" using cnt raw(2) by (simp add: clamp_risk_def)
  have zero: "risk = 0 \<longleftrightarrow> reasons = []"
  proof
    assume "risk = 0"
    then show "reasons = []" using id cnt(1) by (simp split: if_splits)
  next
    assume "reasons = []"
    then have "risk_rules d dp urls = (raw, [])" using raw(1) by simp
    then have "raw = 0" by (auto simp: risk_rules_def split: if_splits)
    then show "risk = 0" using id by simp
  qed
  have "int (length reasons) \<le> raw" using cnt(1) by simp
  then show ?thesis using f raw cnt id zero by blast
qed

theorem score_zero_iff_no_reasons_witness:
  "\<exists>findings. analyze_apk True (\<lambda>p. Inr sample_apk) ''sample.apk'' = Inr findings \<and>
     findings ''ok'' = Some (PBool True) \<and>
     findings ''risk_score'' = Some (PInt 4) \<and>
     findings ''risk_reasons'' = Some (str_list
       [''App is debuggable (should be disabled in release builds)'',
        ''Multiple dangerous permissions declared'',
        ''Can draw over other apps (SYSTEM_ALERT_WINDOW)'']) \<and>
     (\<exists>raw d dp urls. risk_rules d dp urls =
        (raw, [''App is debuggable (should be disabled in release builds)'',
               ''Multiple dangerous permissions declared'',
               ''Can draw over other apps (SYSTEM_ALERT_WINDOW)'']) \<and>
        4 = clamp_risk raw \<and> 3 \<le> raw \<and> raw = 4)"
proof -
  from sample_eval obtain f where
    f: "analyze_apk True (\<lambda>p. Inr sample_apk) ''sample.apk'' = Inr f"
       "f ''ok'' = Some (PBool True)"
       "f ''risk_score'' = Some (PInt 4)"
       "f ''risk_reasons'' = Some (str_list
         [''App is debuggable (should be disabled in release builds)'',
          ''Multiple dangerous permissions declared'',
          ''Can draw over other apps (SYSTEM_ALERT_WINDOW)''])"
    by (auto split: sum.splits)
  from score_zero_iff_no_reasons [OF f(1,2)] obtain score reasons raw d dp urls where
    r: "f ''risk_score'' = Some (PInt score)"
       "f ''risk_reasons'' = Some (str_list reasons)"
       "risk_rules d dp urls = (raw, reasons)" "score = clamp_risk raw"
       "int (length reasons) \<le> raw" "score = raw"
    by blast
  have "score = 4" using r(1) f(3) by simp
  moreover have "reasons = [''App is debuggable (should be disabled in release builds)'',
          ''Multiple dangerous permissions declared'',
          ''Can draw over other apps (SYSTEM_ALERT_WINDOW)'']"
    using r(2) f(4) by (simp add: str_list_eq)
  ultimately show ?thesis using f r by auto
qed

subsection \<open>The debuggable field\<close>

text \<open>
  Claim C10. In a successful result \<^verbatim>\<open>debuggable\<close> is a boolean or null. When \<^verbatim>\<open>is_debuggable()\<close>
  raises it is null, not false, and then the debuggable rule does not fire: score and
  reasons are those of a package that is not debuggable, and the debuggable reason, which
  the rule would put first with 1 more on the score, is absent.
\<close>

theorem debuggable_bool_or_null:
  assumes "analyze_apk ANDRO_OK APK apk_path = Inr findings"
    and "findings ''ok'' = Some (PBool True)"
    and "APK apk_path = Inr a"
  shows "(findings ''debuggable'' = Some PNone \<or> (\<exists>b. findings ''debuggable'' = Some (PBool b))) \<and>
     (\<forall>b. is_debuggable a = Inr b \<longrightarrow> findings ''debuggable'' = Some (PBool b)) \<and>
     (\<forall>e. is_debuggable a = Inl e \<longrightarrow>
        findings ''debuggable'' = Some PNone \<and>
        (\<exists>dp urls raw reasons.
           findings ''dangerous_permissions'' = Some (str_list (sort dp)) \<and>
           findings ''urls'' = Some (str_list urls) \<and>
           findings ''risk_score'' = Some (PInt (clamp_risk raw)) \<and>
           findings ''risk_reasons'' = Some (str_list reasons) \<and>
           (raw, reasons) = risk_rules (Some False) dp urls \<and>
           risk_rules (Some True) dp urls =
             (raw + 1, ''App is debuggable (should be disabled in release builds)'' # reasons) \<and>
           ''App is debuggable (should be disabled in release builds)'' \<notin> set reasons))"
proof -
  from assms(1,2) obtain a' where apk: "APK apk_path = Inr a'"
    and a': "analyze_parsed a' = Inr findings"
    by (rule analyze_apk_success)
  have a: "analyze_parsed a = Inr findings" using apk a' assms(3) by simp
  from a obtain dp urls risk label reasons where
    ra: "risk_assessment (debuggable_flag (is_debuggable a)) dp urls = (risk, label, reasons)" and
    f: "findings ''debuggable'' = Some (opt_bool (debuggable_flag (is_debuggable a)))"
       "findings ''dangerous_permissions'' = Some (str_list (sort dp))"
       "findings ''urls'' = Some (str_list urls)"
       "findings ''risk_score'' = Some (PInt risk)"
       "findings ''risk_reasons'' = Some (str_list reasons)"
    by (rule analyze_parsed_fields)
  have 1: "findings ''debuggable'' = Some PNone \<or> (\<exists>b. findings ''debuggable'' = Some (PBool b))"
    using f(1) opt_bool_cases [of "debuggable_flag (is_debuggable a)"] by auto
  have 2: "\<forall>b. is_debuggable a = Inr b \<longrightarrow> findings ''debuggable'' = Some (PBool b)"
    using f(1) by auto
  have 3: "findings ''debuggable'' = Some PNone \<and>
        (\<exists>dp urls raw reasons.
           findings ''dangerous_permissions'' = Some (str_list (sort dp)) \<and>
           findings ''urls'' = Some (str_list urls) \<and>
           findings ''risk_score'' = Some (PInt (clamp_risk raw)) \<and>
           findings ''risk_reasons'' = Some (str_list reasons) \<and>
           (raw, reasons) = risk_rules (Some False) dp urls \<and>
           risk_rules (Some True) dp urls =
             (raw + 1, ''App is debuggable (should be disabled in release builds)'' # reasons) \<and>
           ''App is debuggable (should be disabled in release builds)'' \<notin> set reasons)"
    if e: "is_debuggable a = Inl e" for e
  proof -
    have none: "debuggable_flag (is_debuggable a) = None" using e by simp
    from ra obtain raw where raw: "risk_rules None dp urls = (raw, reasons)" "risk = clamp_risk raw"
      unfolding none by (rule risk_assessmentE)
    have nd: "(None :: bool option) \<noteq> Some True" by simp
    have "(raw, reasons) = risk_rules (Some False) dp urls"
      using risk_rules_not_debuggable(1) [OF nd, of dp urls] raw(1) by simp
    moreover have "''App is debuggable (should be disabled in release builds)'' \<notin> set reasons"
      using risk_rules_not_debuggable(2) [OF nd, of dp urls] raw(1) by simp
    moreover have "risk_rules (Some True) dp urls =
             (raw + 1, ''App is debuggable (should be disabled in release builds)'' # reasons)"
      using risk_rules_debuggable [of dp urls] raw(1) by simp
    moreover have "findings ''debuggable'' = Some PNone" using f(1) none by simp
    ultimately show ?thesis using f raw(2) by blast
  qed
  show ?thesis using 1 2 3 by blast
qed

theorem debuggable_bool_or_null_witness:
  "\<exists>findings. analyze_apk True (\<lambda>p. Inr undebuggable_apk) ''sample.apk'' = Inr findings \<and>
     findings ''ok'' = Some (PBool True) \<and>
     is_debuggable undebuggable_apk = Inl (Exception ''no attribute is_debuggable'') \<and>
     findings ''debuggable'' = Some PNone \<and>
     findings ''risk_score'' = Some (PInt 3) \<and>
     findings ''risk_reasons'' = Some (str_list
       [''Multiple dangerous permissions declared'',
        ''Can draw over other apps (SYSTEM_ALERT_WINDOW)'']) \<and>
     (\<exists>dp urls. risk_rules (Some False) dp urls =
        (3, [''Multiple dangerous permissions declared'',
             ''Can draw over other apps (SYSTEM_ALERT_WINDOW)'']))"
proof -
  from undebuggable_eval obtain f where
    f: "analyze_apk True (\<lambda>p. Inr undebuggable_apk) ''sample.apk'' = Inr f"
       "f ''ok'' = Some (PBool True)"
       "f ''debuggable'' = Some PNone"
       "f ''risk_score'' = Some (PInt 3)"
       "f ''risk_reasons'' = Some (str_list
         [''Multiple dangerous permissions declared'',
          ''Can draw over other apps (SYSTEM_ALERT_WINDOW)''])"
    by (auto split: sum.splits)
  have e: "is_debuggable undebuggable_apk = Inl (Exception ''no attribute is_debuggable'')"
    by (simp add: undebuggable_apk_def)
  from debuggable_bool_or_null [OF f(1,2) refl] e obtain dp urls raw reasons where
    r: "f ''risk_score'' = Some (PInt (clamp_risk raw))"
       "f ''risk_reasons'' = Some (str_list reasons)"
       "(raw, reasons) = risk_rules (Some False) dp urls"
    by blast
  have raw: "raw = int (length reasons) + (if 3 \<le> length dp then 1 else 0)"
    using risk_rules_count(1) [of "Some False" dp urls raw reasons] r(3) by simp
  have rs: "reasons = [''Multiple dangerous permissions declared'',
          ''Can draw over other apps (SYSTEM_ALERT_WINDOW)'']"
    using r(2) f(5) by (simp add: str_list_eq)
  have "clamp_risk raw = 3" using r(1) f(4) by simp
  then have "raw = 3" using raw rs by (simp add: clamp_risk_def split: if_splits)
  then show ?thesis using f e r(3) rs by auto
qed

end
